theory Spec2Isabelle
  imports Main "HOL-Library.Sublist"
begin

section \<open>The transaction form of MoneyMap (transaction-form.jsx)\<close>

text \<open>
  A shallow embedding of the component \<open>AddTransactionForm\<close>: the default values of the
  form, the receipt-scan handler \<open>handleScanComplete\<close>, and the voice-command
  interpreter \<open>processVoiceCommand\<close> with the speech handler \<open>onresult\<close> that calls it.

  JavaScript strings are modelled as \<open>string\<close>, one \<open>char\<close> per code unit; this covers
  the code units below 256. \<open>undefined\<close> is \<open>None\<close>. The form library's field store is a
  record, \<open>setValue\<close> is a record update. The notifications (\<open>toast.success\<close>) are
  appended to a log, and each call of \<open>handleSubmit(onSubmit)()\<close> is counted.
  The values that come from the host are parameters: \<open>now\<close> is the value of
  \<open>new Date()\<close>, \<open>dayBefore\<close> is \<open>d.setDate(d.getDate() - 1)\<close>, \<open>mkDate\<close> is
  \<open>new Date(x)\<close> and \<open>numToString\<close> is \<open>Number.prototype.toString\<close>.
\<close>

subsection \<open>Data\<close>

datatype txn_type = EXPENSE | INCOME

datatype interval = DAILY | WEEKLY | MONTHLY | YEARLY

record account =
  ac_id :: string
  ac_name :: string
  ac_isDefault :: bool

record category_rec =
  cat_id :: string
  cat_name :: string
  cat_type :: txn_type

text \<open>The form values (the draft), followed by what the handlers emit.\<close>

record 'd form =
  type :: txn_type
  amount :: "string option"
  description :: string
  accountId :: "string option"
  category :: "string option"
  date :: 'd
  isRecurring :: bool
  recurringInterval :: "interval option"
  toasts :: "string list"
  submits :: nat
  voiceStatus :: string

text \<open>The transaction handed to the form in edit mode, and the scanner's result.\<close>

record ('n, 'r) initialData =
  init_type :: txn_type
  init_amount :: 'n
  init_description :: string
  init_accountId :: string
  init_category :: string
  init_date :: 'r
  init_isRecurring :: bool
  init_recurringInterval :: "interval option"

record ('n, 'r) scannedData =
  scan_amount :: 'n
  scan_date :: 'r
  scan_description :: "string option"
  scan_category :: "string option"

subsection \<open>String primitives\<close>

text \<open>\<open>String.prototype.includes\<close>: the pattern occurs at some position.\<close>

fun str_includes :: "string \<Rightarrow> string \<Rightarrow> bool" where
  "str_includes [] p = (p = [])"
| "str_includes (c # cs) p = (prefix p (c # cs) \<or> str_includes cs p)"

text \<open>
  \<open>String.prototype.toLowerCase\<close> on code units below 256: the letters \<open>A\<close>--\<open>Z\<close>
  (65--90) and the Latin-1 capitals 192--222 except the multiplication sign 215 move
  up by 32, which sets the bit of weight 32.
\<close>

definition lowerChar :: "char \<Rightarrow> char" where
  "lowerChar c =
     (let n = (of_char c :: nat) in
      if (65 \<le> n \<and> n \<le> 90) \<or> (192 \<le> n \<and> n \<le> 222 \<and> n \<noteq> 215)
      then (case c of Char b0 b1 b2 b3 b4 b5 b6 b7 \<Rightarrow> Char b0 b1 b2 b3 b4 True b6 b7)
      else c)"

definition toLowerCase :: "string \<Rightarrow> string" where
  "toLowerCase s = map lowerChar s"

text \<open>The character classes of the two regular expressions, on code units below 256.\<close>

definition isDigit :: "char \<Rightarrow> bool" where
  "isDigit c = (c \<in> set ''0123456789'')"

definition isSpace :: "char \<Rightarrow> bool" where
  "isSpace c = ((of_char c :: nat) \<in> {9, 10, 11, 12, 13, 32, 160})"

definition isLineTerminator :: "char \<Rightarrow> bool" where
  "isLineTerminator c = ((of_char c :: nat) \<in> {10, 13})"

definition trim :: "string \<Rightarrow> string" where
  "trim s = rev (dropWhile isSpace (rev (dropWhile isSpace s)))"

subsection \<open>The regular expressions, as backtracking matchers\<close>

text \<open>
  A matcher maps the rest of the input to the list of its successes, in the order in which
  a backtracking engine tries them; a success is the matched text and what follows it.
  \<open>greedy1 ok\<close> is \<open>X+\<close> for a character class (longest first), \<open>lazy1 ok\<close> is
  \<open>X+?\<close> (shortest first).
\<close>

definition greedy1 :: "(char \<Rightarrow> bool) \<Rightarrow> string \<Rightarrow> (string \<times> string) list" where
  "greedy1 ok s =
     map (\<lambda>k. (take k s, drop k s)) (rev [1 ..< Suc (length (takeWhile ok s))])"

definition lazy1 :: "(char \<Rightarrow> bool) \<Rightarrow> string \<Rightarrow> (string \<times> string) list" where
  "lazy1 ok s =
     map (\<lambda>k. (take k s, drop k s)) [1 ..< Suc (length (takeWhile ok s))]"

text \<open>\<open>(\.\d+)?\<close> after the integer part \<open>ds\<close>: the fraction first, then nothing.\<close>

definition fraction :: "string \<Rightarrow> string \<Rightarrow> (string \<times> string) list" where
  "fraction ds r =
     (case r of
        [] \<Rightarrow> []
      | c # r' \<Rightarrow>
          if c = CHR ''.''
          then map (\<lambda>(fs, r''). (ds @ CHR ''.'' # fs, r'')) (greedy1 isDigit r')
          else [])
     @ [(ds, r)]"

text \<open>\<open>\d+(\.\d+)?\<close>\<close>

definition number :: "string \<Rightarrow> (string \<times> string) list" where
  "number s = concat (map (\<lambda>(ds, r). fraction ds r) (greedy1 isDigit s))"

definition lit :: "string \<Rightarrow> string \<Rightarrow> string list" where
  "lit p s = (if prefix p s then [drop (length p) s] else [])"

text \<open>
  \<open>/amount (\d+(\.\d+)?)|(\d+(\.\d+)?) dollars/\<close> at one position: the successes of
  the first alternative, then those of the second. A success is the pair of the capture
  groups 1 and 3.
\<close>

definition amountAt :: "string \<Rightarrow> (string option \<times> string option) list" where
  "amountAt s =
     concat (map (\<lambda>r. map (\<lambda>(g1, _). (Some g1, None)) (number r)) (lit ''amount '' s))
     @ concat (map (\<lambda>(g3, r). map (\<lambda>_. (None, Some g3)) (lit '' dollars'' r)) (number s))"

definition endKeywords :: "string list" where
  "endKeywords = [''amount'', ''type'', ''account'', ''category'', ''date'']"

text \<open>\<open>($|\s(amount|type|account|category|date))\<close>\<close>

definition descriptionEnd :: "string \<Rightarrow> unit list" where
  "descriptionEnd r =
     (if r = [] then [()] else [])
     @ (case r of
          [] \<Rightarrow> []
        | c # r' \<Rightarrow>
            if isSpace c then concat (map (\<lambda>kw. map (\<lambda>_. ()) (lit kw r')) endKeywords)
            else [])"

text \<open>
  \<open>/description (.+?)($|\s(amount|type|account|category|date))/\<close> at one position;
  a success is capture group 1.
\<close>

definition descriptionAt :: "string \<Rightarrow> string list" where
  "descriptionAt s =
     concat (map (\<lambda>r.
       concat (map (\<lambda>(g1, r'). map (\<lambda>_. g1) (descriptionEnd r'))
                   (lazy1 (\<lambda>c. \<not> isLineTerminator c) r)))
       (lit ''description '' s))"

text \<open>
  \<open>String.prototype.match\<close> with a regular expression without flags: the first success
  at the leftmost position that has one, the end of the input included.
\<close>

fun search :: "(string \<Rightarrow> 'a list) \<Rightarrow> string \<Rightarrow> 'a option" where
  "search m [] = (case m [] of [] \<Rightarrow> None | x # _ \<Rightarrow> Some x)"
| "search m (c # cs) = (case m (c # cs) of [] \<Rightarrow> search m cs | x # _ \<Rightarrow> Some x)"

definition amountMatch :: "string \<Rightarrow> (string option \<times> string option) option" where
  "amountMatch transcript = search amountAt transcript"

definition descriptionMatch :: "string \<Rightarrow> string option" where
  "descriptionMatch transcript = search descriptionAt transcript"

text \<open>\<open>a || b\<close> on captures: \<open>undefined\<close> and the empty string are falsy.\<close>

definition jsOr :: "string option \<Rightarrow> string option \<Rightarrow> string option" where
  "jsOr a b = (case a of None \<Rightarrow> b | Some x \<Rightarrow> if x = [] then b else Some x)"

text \<open>A value inside a template literal.\<close>

definition display :: "string option \<Rightarrow> string" where
  "display v = (case v of None \<Rightarrow> ''undefined'' | Some x \<Rightarrow> x)"

subsection \<open>Default values\<close>

text \<open>\<open>accounts.find((ac) => ac.isDefault)?.id\<close>\<close>

definition defaultAccountId :: "account list \<Rightarrow> string option" where
  "defaultAccountId accounts = map_option ac_id (find ac_isDefault accounts)"

text \<open>
  The state of a freshly mounted form: the \<open>defaultValues\<close> of \<open>useForm\<close>, chosen
  by \<open>editMode && initialData\<close> (\<open>initialData\<close> is \<open>None\<close> when it is \<open>null\<close>), an
  empty status text, and nothing notified or submitted yet. The spread
  \<open>...(initialData.recurringInterval && {...})\<close> sets the interval exactly when the
  transaction has one.
\<close>

definition AddTransactionForm ::
  "('n \<Rightarrow> string) \<Rightarrow> ('r \<Rightarrow> 'd) \<Rightarrow> account list \<Rightarrow> 'd \<Rightarrow> bool
     \<Rightarrow> ('n, 'r) initialData option \<Rightarrow> 'd form" where
  "AddTransactionForm numToString mkDate accounts now editMode initial =
     (case (if editMode then initial else None) of
        Some i \<Rightarrow>
          \<lparr> type = init_type i, amount = Some (numToString (init_amount i)),
            description = init_description i, accountId = Some (init_accountId i),
            category = Some (init_category i), date = mkDate (init_date i),
            isRecurring = init_isRecurring i,
            recurringInterval = init_recurringInterval i,
            toasts = [], submits = 0, voiceStatus = '''' \<rparr>
      | None \<Rightarrow>
          \<lparr> type = EXPENSE, amount = Some '''', description = '''',
            accountId = defaultAccountId accounts, category = None, date = now,
            isRecurring = False, recurringInterval = None,
            toasts = [], submits = 0, voiceStatus = '''' \<rparr>)"

subsection \<open>The receipt-scan handler\<close>

text \<open>\<open>toast.success(msg)\<close> adds the message to the log of notifications.\<close>

definition toast :: "string \<Rightarrow> 'd form \<Rightarrow> 'd form" where
  "toast msg st = st\<lparr>toasts := toasts st @ [msg]\<rparr>"

text \<open>
  \<open>if (scannedData.description)\<close> and \<open>if (scannedData.category)\<close> test an optional
  string: \<open>undefined\<close> and the empty string are falsy.
\<close>

definition handleScanComplete ::
  "('n \<Rightarrow> string) \<Rightarrow> ('r \<Rightarrow> 'd) \<Rightarrow> ('n, 'r) scannedData option \<Rightarrow> 'd form \<Rightarrow> 'd form" where
  "handleScanComplete numToString mkDate scanned st =
     (case scanned of
        None \<Rightarrow> st
      | Some r \<Rightarrow>
          (let st1 = st\<lparr>amount := Some (numToString (scan_amount r))\<rparr>;
               st2 = st1\<lparr>date := mkDate (scan_date r)\<rparr>;
               st3 = (case scan_description r of
                        None \<Rightarrow> st2
                      | Some d \<Rightarrow> if d = [] then st2 else st2\<lparr>description := d\<rparr>);
               st4 = (case scan_category r of
                        None \<Rightarrow> st3
                      | Some c \<Rightarrow> if c = [] then st3 else st3\<lparr>category := Some c\<rparr>)
           in toast ''Receipt scanned successfully'' st4))"

subsection \<open>The voice-command interpreter\<close>

definition typeRule :: "string \<Rightarrow> 'd form \<Rightarrow> 'd form" where
  "typeRule transcript st =
     (if str_includes transcript ''expense'' \<or> str_includes transcript ''spending''
      then toast ''Set type to Expense'' (st\<lparr>type := EXPENSE\<rparr>)
      else if str_includes transcript ''income'' \<or> str_includes transcript ''earning''
      then toast ''Set type to Income'' (st\<lparr>type := INCOME\<rparr>)
      else st)"

definition amountRule :: "string \<Rightarrow> 'd form \<Rightarrow> 'd form" where
  "amountRule transcript st =
     (case amountMatch transcript of
        None \<Rightarrow> st
      | Some (g1, g3) \<Rightarrow>
          (let a = jsOr g1 g3
           in toast (''Set amount to '' @ display a) (st\<lparr>amount := a\<rparr>)))"

definition dateRule :: "'d \<Rightarrow> ('d \<Rightarrow> 'd) \<Rightarrow> string \<Rightarrow> 'd form \<Rightarrow> 'd form" where
  "dateRule now dayBefore transcript st =
     (if str_includes transcript ''today''
      then toast ''Set date to today'' (st\<lparr>date := now\<rparr>)
      else if str_includes transcript ''yesterday''
      then toast ''Set date to yesterday'' (st\<lparr>date := dayBefore now\<rparr>)
      else st)"

definition descriptionRule :: "string \<Rightarrow> 'd form \<Rightarrow> 'd form" where
  "descriptionRule transcript st =
     (case descriptionMatch transcript of
        None \<Rightarrow> st
      | Some g1 \<Rightarrow>
          toast (''Set description to '' @ trim g1) (st\<lparr>description := trim g1\<rparr>))"

text \<open>The two \<open>for ... of\<close> loops; \<open>break\<close> ends the recursion.\<close>

fun categoryRule :: "category_rec list \<Rightarrow> string \<Rightarrow> 'd form \<Rightarrow> 'd form" where
  "categoryRule [] transcript st = st"
| "categoryRule (c # cs) transcript st =
     (if str_includes transcript (''category '' @ toLowerCase (cat_name c))
      then toast (''Set category to '' @ cat_name c) (st\<lparr>category := Some (cat_id c)\<rparr>)
      else categoryRule cs transcript st)"

fun accountRule :: "account list \<Rightarrow> string \<Rightarrow> 'd form \<Rightarrow> 'd form" where
  "accountRule [] transcript st = st"
| "accountRule (a # as) transcript st =
     (if str_includes transcript (''account '' @ toLowerCase (ac_name a))
      then toast (''Set account to '' @ ac_name a) (st\<lparr>accountId := Some (ac_id a)\<rparr>)
      else accountRule as transcript st)"

definition recurringRule :: "string \<Rightarrow> 'd form \<Rightarrow> 'd form" where
  "recurringRule transcript st =
     (if str_includes transcript ''recurring yes'' \<or> str_includes transcript ''set recurring''
      then toast ''Enabled recurring transaction'' (st\<lparr>isRecurring := True\<rparr>)
      else if str_includes transcript ''recurring no'' \<or> str_includes transcript ''not recurring''
      then toast ''Disabled recurring transaction'' (st\<lparr>isRecurring := False\<rparr>)
      else st)"

definition intervalRule :: "string \<Rightarrow> 'd form \<Rightarrow> 'd form" where
  "intervalRule transcript st =
     (if str_includes transcript ''daily''
      then toast ''Set recurring interval to daily'' (st\<lparr>recurringInterval := Some DAILY\<rparr>)
      else if str_includes transcript ''weekly''
      then toast ''Set recurring interval to weekly'' (st\<lparr>recurringInterval := Some WEEKLY\<rparr>)
      else if str_includes transcript ''monthly''
      then toast ''Set recurring interval to monthly''
             (st\<lparr>recurringInterval := Some MONTHLY\<rparr>)
      else if str_includes transcript ''yearly''
      then toast ''Set recurring interval to yearly'' (st\<lparr>recurringInterval := Some YEARLY\<rparr>)
      else st)"

text \<open>\<open>handleSubmit(onSubmit)()\<close> starts the submission pipeline on the current values.\<close>

definition submitRule :: "string \<Rightarrow> 'd form \<Rightarrow> 'd form" where
  "submitRule transcript st =
     (if str_includes transcript ''submit'' \<or> str_includes transcript ''save transaction''
      then toast ''Submitting form...'' (st\<lparr>submits := Suc (submits st)\<rparr>)
      else st)"

definition processVoiceCommand ::
  "category_rec list \<Rightarrow> account list \<Rightarrow> 'd \<Rightarrow> ('d \<Rightarrow> 'd) \<Rightarrow> string \<Rightarrow> 'd form \<Rightarrow> 'd form" where
  "processVoiceCommand categories accounts now dayBefore transcript st =
     submitRule transcript
       (intervalRule transcript
         (recurringRule transcript
           (accountRule accounts transcript
             (categoryRule categories transcript
               (descriptionRule transcript
                 (dateRule now dayBefore transcript
                   (amountRule transcript
                     (typeRule transcript st))))))))"

text \<open>
  The recognition session's \<open>onresult\<close>: the transcript of the last result is
  lower-cased, shown as status, and processed.
\<close>

definition onresult ::
  "category_rec list \<Rightarrow> account list \<Rightarrow> 'd \<Rightarrow> ('d \<Rightarrow> 'd) \<Rightarrow> string \<Rightarrow> 'd form \<Rightarrow> 'd form" where
  "onresult categories accounts now dayBefore heard st =
     (let transcript = toLowerCase heard
      in processVoiceCommand categories accounts now dayBefore transcript
           (st\<lparr>voiceStatus := ''I heard: '' @ transcript\<rparr>))"

section \<open>Substrings\<close>

text \<open>\<open>str_includes t p\<close> holds exactly when \<open>p\<close> occurs in \<open>t\<close>.\<close>

lemma str_includes_iff: "str_includes t p \<longleftrightarrow> (\<exists>pre post. t = pre @ p @ post)"
proof (induction t)
  case Nil
  then show ?case by auto
next
  case (Cons c cs)
  show ?case
  proof
    assume "str_includes (c # cs) p"
    then consider "prefix p (c # cs)" | "str_includes cs p" by auto
    then show "\<exists>pre post. c # cs = pre @ p @ post"
    proof cases
      case 1
      then obtain post where "c # cs = p @ post" by (auto simp: prefix_def)
      then have "c # cs = [] @ p @ post" by simp
      then show ?thesis by blast
    next
      case 2
      with Cons obtain pre post where "cs = pre @ p @ post" by blast
      then have "c # cs = (c # pre) @ p @ post" by simp
      then show ?thesis by blast
    qed
  next
    assume "\<exists>pre post. c # cs = pre @ p @ post"
    then obtain pre post where e: "c # cs = pre @ p @ post" by blast
    show "str_includes (c # cs) p"
    proof (cases pre)
      case Nil
      with e have "prefix p (c # cs)" by (simp add: prefix_def)
      then show ?thesis by simp
    next
      case (Cons a pre')
      with e have "cs = pre' @ p @ post" by simp
      with Cons.IH have "str_includes cs p" by blast
      then show ?thesis by simp
    qed
  qed
qed

section \<open>What each rule does to each field\<close>

lemma toast_fields:
  "type (toast m st) = type st" "amount (toast m st) = amount st"
  "description (toast m st) = description st" "accountId (toast m st) = accountId st"
  "category (toast m st) = category st" "date (toast m st) = date st"
  "isRecurring (toast m st) = isRecurring st"
  "recurringInterval (toast m st) = recurringInterval st"
  "submits (toast m st) = submits st" "voiceStatus (toast m st) = voiceStatus st"
  by (simp_all add: toast_def)

lemma typeRule_fields:
  "type (typeRule t st) =
     (if str_includes t ''expense'' \<or> str_includes t ''spending'' then EXPENSE
      else if str_includes t ''income'' \<or> str_includes t ''earning'' then INCOME
      else type st)"
  "amount (typeRule t st) = amount st" "description (typeRule t st) = description st"
  "accountId (typeRule t st) = accountId st" "category (typeRule t st) = category st"
  "date (typeRule t st) = date st" "isRecurring (typeRule t st) = isRecurring st"
  "recurringInterval (typeRule t st) = recurringInterval st"
  "submits (typeRule t st) = submits st"
  by (simp_all add: typeRule_def toast_fields)

lemma amountRule_fields:
  "amount (amountRule t st) =
     (case amountMatch t of None \<Rightarrow> amount st | Some (g1, g3) \<Rightarrow> jsOr g1 g3)"
  "type (amountRule t st) = type st" "description (amountRule t st) = description st"
  "accountId (amountRule t st) = accountId st" "category (amountRule t st) = category st"
  "date (amountRule t st) = date st" "isRecurring (amountRule t st) = isRecurring st"
  "recurringInterval (amountRule t st) = recurringInterval st"
  "submits (amountRule t st) = submits st"
  by (simp_all add: amountRule_def toast_fields Let_def split: option.split prod.split)

lemma dateRule_fields:
  "date (dateRule now db t st) =
     (if str_includes t ''today'' then now
      else if str_includes t ''yesterday'' then db now else date st)"
  "type (dateRule now db t st) = type st" "amount (dateRule now db t st) = amount st"
  "description (dateRule now db t st) = description st"
  "accountId (dateRule now db t st) = accountId st"
  "category (dateRule now db t st) = category st"
  "isRecurring (dateRule now db t st) = isRecurring st"
  "recurringInterval (dateRule now db t st) = recurringInterval st"
  "submits (dateRule now db t st) = submits st"
  by (simp_all add: dateRule_def toast_fields)

lemma descriptionRule_fields:
  "description (descriptionRule t st) =
     (case descriptionMatch t of None \<Rightarrow> description st | Some g1 \<Rightarrow> trim g1)"
  "type (descriptionRule t st) = type st" "amount (descriptionRule t st) = amount st"
  "accountId (descriptionRule t st) = accountId st"
  "category (descriptionRule t st) = category st" "date (descriptionRule t st) = date st"
  "isRecurring (descriptionRule t st) = isRecurring st"
  "recurringInterval (descriptionRule t st) = recurringInterval st"
  "submits (descriptionRule t st) = submits st"
  by (simp_all add: descriptionRule_def toast_fields split: option.split)

lemma categoryRule_category:
  "category (categoryRule cs t st) =
     (case find (\<lambda>c. str_includes t (''category '' @ toLowerCase (cat_name c))) cs of
        None \<Rightarrow> category st | Some c \<Rightarrow> Some (cat_id c))"
  by (induction cs) (simp_all add: toast_fields)

lemma categoryRule_frame:
  "type (categoryRule cs t st) = type st \<and> amount (categoryRule cs t st) = amount st \<and>
   description (categoryRule cs t st) = description st \<and>
   accountId (categoryRule cs t st) = accountId st \<and>
   date (categoryRule cs t st) = date st \<and>
   isRecurring (categoryRule cs t st) = isRecurring st \<and>
   recurringInterval (categoryRule cs t st) = recurringInterval st \<and>
   submits (categoryRule cs t st) = submits st"
  by (induction cs) (simp_all add: toast_fields)

lemma accountRule_accountId:
  "accountId (accountRule as t st) =
     (case find (\<lambda>a. str_includes t (''account '' @ toLowerCase (ac_name a))) as of
        None \<Rightarrow> accountId st | Some a \<Rightarrow> Some (ac_id a))"
  by (induction as) (simp_all add: toast_fields)

lemma accountRule_frame:
  "type (accountRule as t st) = type st \<and> amount (accountRule as t st) = amount st \<and>
   description (accountRule as t st) = description st \<and>
   category (accountRule as t st) = category st \<and>
   date (accountRule as t st) = date st \<and>
   isRecurring (accountRule as t st) = isRecurring st \<and>
   recurringInterval (accountRule as t st) = recurringInterval st \<and>
   submits (accountRule as t st) = submits st"
  by (induction as) (simp_all add: toast_fields)

lemma recurringRule_fields:
  "isRecurring (recurringRule t st) =
     (if str_includes t ''recurring yes'' \<or> str_includes t ''set recurring'' then True
      else if str_includes t ''recurring no'' \<or> str_includes t ''not recurring'' then False
      else isRecurring st)"
  "type (recurringRule t st) = type st" "amount (recurringRule t st) = amount st"
  "description (recurringRule t st) = description st"
  "accountId (recurringRule t st) = accountId st"
  "category (recurringRule t st) = category st" "date (recurringRule t st) = date st"
  "recurringInterval (recurringRule t st) = recurringInterval st"
  "submits (recurringRule t st) = submits st"
  by (simp_all add: recurringRule_def toast_fields)

lemma intervalRule_fields:
  "recurringInterval (intervalRule t st) =
     (if str_includes t ''daily'' then Some DAILY
      else if str_includes t ''weekly'' then Some WEEKLY
      else if str_includes t ''monthly'' then Some MONTHLY
      else if str_includes t ''yearly'' then Some YEARLY
      else recurringInterval st)"
  "type (intervalRule t st) = type st" "amount (intervalRule t st) = amount st"
  "description (intervalRule t st) = description st"
  "accountId (intervalRule t st) = accountId st"
  "category (intervalRule t st) = category st" "date (intervalRule t st) = date st"
  "isRecurring (intervalRule t st) = isRecurring st"
  "submits (intervalRule t st) = submits st"
  by (simp_all add: intervalRule_def toast_fields)

lemma submitRule_fields:
  "submits (submitRule t st) =
     (if str_includes t ''submit'' \<or> str_includes t ''save transaction''
      then Suc (submits st) else submits st)"
  "type (submitRule t st) = type st" "amount (submitRule t st) = amount st"
  "description (submitRule t st) = description st"
  "accountId (submitRule t st) = accountId st"
  "category (submitRule t st) = category st" "date (submitRule t st) = date st"
  "isRecurring (submitRule t st) = isRecurring st"
  "recurringInterval (submitRule t st) = recurringInterval st"
  by (simp_all add: submitRule_def toast_fields)

lemmas rule_fields =
  typeRule_fields amountRule_fields dateRule_fields descriptionRule_fields
  categoryRule_category categoryRule_frame accountRule_accountId accountRule_frame
  recurringRule_fields intervalRule_fields submitRule_fields

lemma processVoiceCommand_type:
  "type (processVoiceCommand cs as now db t st) =
     (if str_includes t ''expense'' \<or> str_includes t ''spending'' then EXPENSE
      else if str_includes t ''income'' \<or> str_includes t ''earning'' then INCOME
      else type st)"
  by (simp only: processVoiceCommand_def rule_fields)

lemma processVoiceCommand_amount:
  "amount (processVoiceCommand cs as now db t st) =
     (case amountMatch t of None \<Rightarrow> amount st | Some (g1, g3) \<Rightarrow> jsOr g1 g3)"
  by (simp only: processVoiceCommand_def rule_fields)

lemma processVoiceCommand_date:
  "date (processVoiceCommand cs as now db t st) =
     (if str_includes t ''today'' then now
      else if str_includes t ''yesterday'' then db now else date st)"
  by (simp only: processVoiceCommand_def rule_fields)

lemma processVoiceCommand_description:
  "description (processVoiceCommand cs as now db t st) =
     (case descriptionMatch t of None \<Rightarrow> description st | Some g1 \<Rightarrow> trim g1)"
  by (simp only: processVoiceCommand_def rule_fields)

lemma processVoiceCommand_category:
  "category (processVoiceCommand cs as now db t st) =
     (case find (\<lambda>c. str_includes t (''category '' @ toLowerCase (cat_name c))) cs of
        None \<Rightarrow> category st | Some c \<Rightarrow> Some (cat_id c))"
  by (simp only: processVoiceCommand_def rule_fields)

lemma processVoiceCommand_accountId:
  "accountId (processVoiceCommand cs as now db t st) =
     (case find (\<lambda>a. str_includes t (''account '' @ toLowerCase (ac_name a))) as of
        None \<Rightarrow> accountId st | Some a \<Rightarrow> Some (ac_id a))"
  by (simp only: processVoiceCommand_def rule_fields)

lemma processVoiceCommand_isRecurring:
  "isRecurring (processVoiceCommand cs as now db t st) =
     (if str_includes t ''recurring yes'' \<or> str_includes t ''set recurring'' then True
      else if str_includes t ''recurring no'' \<or> str_includes t ''not recurring'' then False
      else isRecurring st)"
  by (simp only: processVoiceCommand_def rule_fields)

lemma processVoiceCommand_recurringInterval:
  "recurringInterval (processVoiceCommand cs as now db t st) =
     (if str_includes t ''daily'' then Some DAILY
      else if str_includes t ''weekly'' then Some WEEKLY
      else if str_includes t ''monthly'' then Some MONTHLY
      else if str_includes t ''yearly'' then Some YEARLY
      else recurringInterval st)"
  by (simp only: processVoiceCommand_def rule_fields)

lemma processVoiceCommand_submits:
  "submits (processVoiceCommand cs as now db t st) =
     (if str_includes t ''submit'' \<or> str_includes t ''save transaction''
      then Suc (submits st) else submits st)"
  by (simp only: processVoiceCommand_def rule_fields)

section \<open>Properties of the form\<close>

subsection \<open>The type rule\<close>

text \<open>
  C1 (as stated): a transcript with both an expense word and an income word would set the
  type to INCOME. The transcript \<open>expense income\<close> contains both, and the type is not
  INCOME afterwards.
\<close>

theorem type_both_not_income:
  "(str_includes ''expense income'' ''expense'' \<or> str_includes ''expense income'' ''spending'')
   \<and> (str_includes ''expense income'' ''income'' \<or> str_includes ''expense income'' ''earning'')
   \<and> type (processVoiceCommand [] [] (0::int) ((+) (- 1)) ''expense income''
         (AddTransactionForm (id :: string \<Rightarrow> string) (id :: int \<Rightarrow> int) [] 0 False None))
       \<noteq> INCOME"
  by (simp add: processVoiceCommand_type)

text \<open>
  C1 (amended): for every transcript that contains \<open>expense\<close> or \<open>spending\<close> and also
  \<open>income\<close> or \<open>earning\<close>, \<open>processVoiceCommand\<close> sets the type to EXPENSE: the
  income check is the \<open>else\<close> branch of the expense check, so the first match wins.
\<close>

theorem type_expense_wins:
  assumes "str_includes t ''expense'' \<or> str_includes t ''spending''"
    and "str_includes t ''income'' \<or> str_includes t ''earning''"
  shows "type (processVoiceCommand cs as now db t st) = EXPENSE"
  using assms(1) by (simp add: processVoiceCommand_type)

theorem type_expense_wins_witness:
  "(str_includes ''my spending and earning'' ''expense''
      \<or> str_includes ''my spending and earning'' ''spending'')
   \<and> (str_includes ''my spending and earning'' ''income''
      \<or> str_includes ''my spending and earning'' ''earning'')
   \<and> type (processVoiceCommand [] [] (0::int) ((+) (- 1)) ''my spending and earning''
         (AddTransactionForm (id :: string \<Rightarrow> string) (id :: int \<Rightarrow> int) [] 0 False None))
       = EXPENSE"
proof -
  have h1: "str_includes ''my spending and earning'' ''expense''
      \<or> str_includes ''my spending and earning'' ''spending''" by simp
  have h2: "str_includes ''my spending and earning'' ''income''
      \<or> str_includes ''my spending and earning'' ''earning''" by simp
  show ?thesis by (intro conjI h1 h2 type_expense_wins [OF h1 h2])
qed

subsection \<open>The date rule\<close>

text \<open>
  C4: for every transcript that contains both \<open>today\<close> and \<open>yesterday\<close>,
  \<open>processVoiceCommand\<close> sets the date to the current date.
\<close>

theorem today_wins:
  assumes "str_includes t ''today''" and "str_includes t ''yesterday''"
  shows "date (processVoiceCommand cs as now db t st) = now"
  using assms(1) by (simp add: processVoiceCommand_date)

theorem today_wins_witness:
  "str_includes ''yesterday or today'' ''today''
   \<and> str_includes ''yesterday or today'' ''yesterday''
   \<and> date (processVoiceCommand [] [] (7::int) ((+) (- 1)) ''yesterday or today''
         (AddTransactionForm (id :: string \<Rightarrow> string) (id :: int \<Rightarrow> int) [] 0 False None)) = 7"
proof -
  have h1: "str_includes ''yesterday or today'' ''today''" by simp
  have h2: "str_includes ''yesterday or today'' ''yesterday''" by simp
  show ?thesis by (intro conjI h1 h2 today_wins [OF h1 h2])
qed

subsection \<open>The interval rule\<close>

text \<open>
  C7: the interval rule checks \<open>daily\<close>, \<open>weekly\<close>, \<open>monthly\<close>, \<open>yearly\<close> in this
  order and the first match wins; in particular every transcript that contains \<open>daily\<close>
  gets the interval DAILY, whatever else it contains.
\<close>

theorem interval_first_match_wins:
  "recurringInterval (processVoiceCommand cs as now db t st) =
     (if str_includes t ''daily'' then Some DAILY
      else if str_includes t ''weekly'' then Some WEEKLY
      else if str_includes t ''monthly'' then Some MONTHLY
      else if str_includes t ''yearly'' then Some YEARLY
      else recurringInterval st)
   \<and> (str_includes t ''daily'' \<longrightarrow>
        recurringInterval (processVoiceCommand cs as now db t st) = Some DAILY)"
  by (simp add: processVoiceCommand_recurringInterval)

theorem interval_first_match_wins_witness:
  "str_includes ''yearly monthly weekly daily'' ''daily''
   \<and> str_includes ''yearly monthly weekly daily'' ''weekly''
   \<and> str_includes ''yearly monthly weekly daily'' ''monthly''
   \<and> str_includes ''yearly monthly weekly daily'' ''yearly''
   \<and> recurringInterval (processVoiceCommand [] [] (0::int) ((+) (- 1))
         ''yearly monthly weekly daily''
         (AddTransactionForm (id :: string \<Rightarrow> string) (id :: int \<Rightarrow> int) [] 0 False None))
       = Some DAILY"
proof -
  have h: "str_includes ''yearly monthly weekly daily'' ''daily''" by simp
  have "recurringInterval (processVoiceCommand [] [] (0::int) ((+) (- 1))
         ''yearly monthly weekly daily''
         (AddTransactionForm (id :: string \<Rightarrow> string) (id :: int \<Rightarrow> int) [] 0 False None))
       = Some DAILY"
    using h interval_first_match_wins [of "[]" "[]" 0 "(+) (- 1)" "''yearly monthly weekly daily''"]
    by blast
  then show ?thesis by simp
qed

subsection \<open>The recurring interval and the recurring flag\<close>

text \<open>
  C2 (as stated): every \<open>processVoiceCommand\<close> call would keep the interval absent
  unless the draft is recurring. On the create-mode defaults the transcript \<open>daily\<close>
  sets the interval and leaves \<open>isRecurring\<close> false.
\<close>

theorem voice_interval_without_recurring:
  "recurringInterval (processVoiceCommand [] [] (0::int) ((+) (- 1)) ''daily''
       (AddTransactionForm (id :: string \<Rightarrow> string) (id :: int \<Rightarrow> int) [] 0 False None))
     = Some DAILY
   \<and> \<not> isRecurring (processVoiceCommand [] [] (0::int) ((+) (- 1)) ''daily''
       (AddTransactionForm (id :: string \<Rightarrow> string) (id :: int \<Rightarrow> int) [] 0 False None))"
  by (simp add: processVoiceCommand_recurringInterval processVoiceCommand_isRecurring
      AddTransactionForm_def)

text \<open>
  C2 (amended): the defaults satisfy the invariant, in create mode always and in edit
  mode when the transaction handed in satisfies it. A \<open>processVoiceCommand\<close> call
  leaves the draft recurring when the transcript contains \<open>recurring yes\<close> or
  \<open>set recurring\<close>. After a call the invariant holds exactly when the transcript
  contains \<open>recurring yes\<close> or \<open>set recurring\<close>, or the draft was recurring and the
  transcript contains neither \<open>recurring no\<close> nor \<open>not recurring\<close>, or the draft had
  no interval and the transcript contains none of the four interval words.
\<close>

theorem recurring_invariant_amended:
  fixes numToString :: "'n \<Rightarrow> string" and mkDate :: "'r \<Rightarrow> 'd"
    and i :: "('n, 'r) initialData" and st :: "'d form"
  shows
    "(recurringInterval (AddTransactionForm numToString mkDate accounts now False (Some i)) \<noteq> None
        \<longrightarrow> isRecurring (AddTransactionForm numToString mkDate accounts now False (Some i)))
     \<and> (recurringInterval (AddTransactionForm numToString mkDate accounts now editMode None) \<noteq> None
        \<longrightarrow> isRecurring (AddTransactionForm numToString mkDate accounts now editMode None))
     \<and> ((init_recurringInterval i \<noteq> None \<longrightarrow> init_isRecurring i) \<longrightarrow>
         (recurringInterval (AddTransactionForm numToString mkDate accounts now True (Some i)) \<noteq> None
          \<longrightarrow> isRecurring (AddTransactionForm numToString mkDate accounts now True (Some i))))
     \<and> (str_includes t ''recurring yes'' \<or> str_includes t ''set recurring'' \<longrightarrow>
         isRecurring (processVoiceCommand cs as now dayBefore t st))
     \<and> ((recurringInterval (processVoiceCommand cs as now dayBefore t st) \<noteq> None
          \<longrightarrow> isRecurring (processVoiceCommand cs as now dayBefore t st))
        \<longleftrightarrow>
          (str_includes t ''recurring yes'' \<or> str_includes t ''set recurring'')
          \<or> (isRecurring st
              \<and> \<not> str_includes t ''recurring no'' \<and> \<not> str_includes t ''not recurring'')
          \<or> (recurringInterval st = None
              \<and> \<not> str_includes t ''daily'' \<and> \<not> str_includes t ''weekly''
              \<and> \<not> str_includes t ''monthly'' \<and> \<not> str_includes t ''yearly''))"
  by (auto simp: processVoiceCommand_recurringInterval processVoiceCommand_isRecurring
      AddTransactionForm_def)

theorem recurring_invariant_amended_witness:
  "isRecurring
     (AddTransactionForm (id :: string \<Rightarrow> string) (id :: int \<Rightarrow> int) [] 0 True
      (Some \<lparr>init_type = EXPENSE, init_amount = ''12.5'', init_description = ''rent'',
        init_accountId = ''a1'', init_category = ''housing'', init_date = (5::int),
        init_isRecurring = True, init_recurringInterval = Some WEEKLY\<rparr>))
   \<and> recurringInterval
     (AddTransactionForm (id :: string \<Rightarrow> string) (id :: int \<Rightarrow> int) [] 0 True
      (Some \<lparr>init_type = EXPENSE, init_amount = ''12.5'', init_description = ''rent'',
        init_accountId = ''a1'', init_category = ''housing'', init_date = (5::int),
        init_isRecurring = True, init_recurringInterval = Some WEEKLY\<rparr>)) = Some WEEKLY
   \<and> str_includes ''set recurring daily'' ''set recurring''
   \<and> isRecurring (processVoiceCommand [] [] (0::int) ((+) (- 1)) ''set recurring daily''
       (AddTransactionForm (id :: string \<Rightarrow> string) (id :: int \<Rightarrow> int) [] 0 False None))
   \<and> recurringInterval (processVoiceCommand [] [] (0::int) ((+) (- 1)) ''monthly''
     (AddTransactionForm (id :: string \<Rightarrow> string) (id :: int \<Rightarrow> int) [] 0 True
      (Some \<lparr>init_type = EXPENSE, init_amount = ''12.5'', init_description = ''rent'',
        init_accountId = ''a1'', init_category = ''housing'', init_date = (5::int),
        init_isRecurring = True, init_recurringInterval = Some WEEKLY\<rparr>))) = Some MONTHLY
   \<and> isRecurring (processVoiceCommand [] [] (0::int) ((+) (- 1)) ''monthly''
     (AddTransactionForm (id :: string \<Rightarrow> string) (id :: int \<Rightarrow> int) [] 0 True
      (Some \<lparr>init_type = EXPENSE, init_amount = ''12.5'', init_description = ''rent'',
        init_accountId = ''a1'', init_category = ''housing'', init_date = (5::int),
        init_isRecurring = True, init_recurringInterval = Some WEEKLY\<rparr>)))
   \<and> \<not> isRecurring (processVoiceCommand [] [] (0::int) ((+) (- 1)) ''not recurring''
       (AddTransactionForm (id :: string \<Rightarrow> string) (id :: int \<Rightarrow> int) [] 0 False None))
   \<and> recurringInterval (processVoiceCommand [] [] (0::int) ((+) (- 1)) ''not recurring''
       (AddTransactionForm (id :: string \<Rightarrow> string) (id :: int \<Rightarrow> int) [] 0 False None)) = None"
proof -
  let ?i = "\<lparr>init_type = EXPENSE, init_amount = ''12.5'', init_description = ''rent'',
        init_accountId = ''a1'', init_category = ''housing'', init_date = (5::int),
        init_isRecurring = True, init_recurringInterval = Some WEEKLY\<rparr>"
  let ?f = "AddTransactionForm (id :: string \<Rightarrow> string) (id :: int \<Rightarrow> int) [] 0 True (Some ?i)"
  let ?d = "AddTransactionForm (id :: string \<Rightarrow> string) (id :: int \<Rightarrow> int) [] 0 False None"
  note init = recurring_invariant_amended
    [of id id "[]" 0 ?i True "''monthly''" "[]" "[]" "(+) (- 1)" ?f]
  note enable = recurring_invariant_amended
    [of id id "[]" 0 ?i True "''set recurring daily''" "[]" "[]" "(+) (- 1)" ?d]
  note month = recurring_invariant_amended
    [of id id "[]" 0 ?i True "''monthly''" "[]" "[]" "(+) (- 1)" ?f]
  note disable = recurring_invariant_amended
    [of id id "[]" 0 ?i True "''not recurring''" "[]" "[]" "(+) (- 1)" ?d]
  have i_ok: "init_recurringInterval ?i \<noteq> None \<longrightarrow> init_isRecurring ?i" by simp
  have f_int: "recurringInterval ?f = Some WEEKLY"
    by (simp add: AddTransactionForm_def)
  have f_rec: "isRecurring ?f" using init i_ok f_int by simp
  have en: "str_includes ''set recurring daily'' ''set recurring''" by simp
  have en_rec: "isRecurring (processVoiceCommand [] [] (0::int) ((+) (- 1))
      ''set recurring daily'' ?d)"
    using enable en by blast
  have m_no: "\<not> str_includes ''monthly'' ''recurring no''"
    "\<not> str_includes ''monthly'' ''not recurring''"
    by simp_all
  have m_int: "recurringInterval (processVoiceCommand [] [] (0::int) ((+) (- 1))
      ''monthly'' ?f) = Some MONTHLY"
    by (simp add: processVoiceCommand_recurringInterval)
  have m_rec: "isRecurring (processVoiceCommand [] [] (0::int) ((+) (- 1)) ''monthly'' ?f)"
    using month f_rec m_no m_int by simp
  have d_none: "recurringInterval ?d = None" by (simp add: AddTransactionForm_def)
  have d_words: "\<not> str_includes ''not recurring'' ''daily''"
    "\<not> str_includes ''not recurring'' ''weekly''"
    "\<not> str_includes ''not recurring'' ''monthly''"
    "\<not> str_includes ''not recurring'' ''yearly''"
    by simp_all
  have d_rec: "\<not> isRecurring (processVoiceCommand [] [] (0::int) ((+) (- 1))
      ''not recurring'' ?d)"
    by (simp add: processVoiceCommand_isRecurring)
  have d_int: "recurringInterval (processVoiceCommand [] [] (0::int) ((+) (- 1))
      ''not recurring'' ?d) = None"
    using disable d_none d_words d_rec by blast
  show ?thesis
    by (intro conjI f_rec f_int en en_rec m_int m_rec d_rec d_int)
qed

subsection \<open>The default values in create mode\<close>

lemma find_append_first:
  "\<forall>b \<in> set pre. \<not> P b \<Longrightarrow> P a \<Longrightarrow> find P (pre @ a # post) = Some a"
  by (induction pre) simp_all

lemma find_none_all: "\<forall>a \<in> set xs. \<not> P a \<Longrightarrow> find P xs = None"
  by (simp add: find_None_iff)

text \<open>
  C8: with \<open>editMode = false\<close> and \<open>initialData = null\<close> the draft starts with type
  EXPENSE, empty amount and description, the current date, \<open>isRecurring = false\<close>, and
  as account the id of the first account flagged default, or none when no account is.
\<close>

theorem create_mode_defaults:
  fixes numToString :: "'n \<Rightarrow> string" and mkDate :: "'r \<Rightarrow> 'd"
  shows
    "type (AddTransactionForm numToString mkDate accounts now False None) = EXPENSE
     \<and> amount (AddTransactionForm numToString mkDate accounts now False None) = Some ''''
     \<and> description (AddTransactionForm numToString mkDate accounts now False None) = ''''
     \<and> accountId (AddTransactionForm numToString mkDate accounts now False None)
         = map_option ac_id (find ac_isDefault accounts)
     \<and> date (AddTransactionForm numToString mkDate accounts now False None) = now
     \<and> isRecurring (AddTransactionForm numToString mkDate accounts now False None) = False
     \<and> ((\<forall>a \<in> set accounts. \<not> ac_isDefault a) \<longrightarrow>
          accountId (AddTransactionForm numToString mkDate accounts now False None) = None)
     \<and> ((\<forall>b \<in> set pre. \<not> ac_isDefault b) \<and> ac_isDefault a \<longrightarrow>
          accountId (AddTransactionForm numToString mkDate (pre @ a # post) now False None)
            = Some (ac_id a))"
  by (simp add: AddTransactionForm_def defaultAccountId_def
      find_append_first find_none_all)

theorem create_mode_defaults_witness:
  "ac_isDefault \<lparr>ac_id = ''a2'', ac_name = ''Savings'', ac_isDefault = True\<rparr>
   \<and> \<not> ac_isDefault \<lparr>ac_id = ''a1'', ac_name = ''Cash'', ac_isDefault = False\<rparr>
   \<and> accountId (AddTransactionForm (id :: string \<Rightarrow> string) (id :: int \<Rightarrow> int)
        ([\<lparr>ac_id = ''a1'', ac_name = ''Cash'', ac_isDefault = False\<rparr>]
          @ \<lparr>ac_id = ''a2'', ac_name = ''Savings'', ac_isDefault = True\<rparr> # [])
        (3::int) False None) = Some ''a2''
   \<and> accountId (AddTransactionForm (id :: string \<Rightarrow> string) (id :: int \<Rightarrow> int)
        [\<lparr>ac_id = ''a1'', ac_name = ''Cash'', ac_isDefault = False\<rparr>]
        (3::int) False None) = None"
proof -
  let ?a1 = "\<lparr>ac_id = ''a1'', ac_name = ''Cash'', ac_isDefault = False\<rparr>"
  let ?a2 = "\<lparr>ac_id = ''a2'', ac_name = ''Savings'', ac_isDefault = True\<rparr>"
  note inst = create_mode_defaults
    [of "id :: string \<Rightarrow> string" "id :: int \<Rightarrow> int" "[?a1]" 3 "[?a1]" ?a2 "[]"]
  have d: "ac_isDefault ?a2" by simp
  have n: "\<not> ac_isDefault ?a1" by simp
  have pre: "\<forall>b \<in> set [?a1]. \<not> ac_isDefault b" by simp
  have r1: "accountId (AddTransactionForm (id :: string \<Rightarrow> string) (id :: int \<Rightarrow> int)
        ([?a1] @ ?a2 # []) (3::int) False None) = Some ''a2''"
    using inst pre d by simp
  have r2: "accountId (AddTransactionForm (id :: string \<Rightarrow> string) (id :: int \<Rightarrow> int)
        [?a1] (3::int) False None) = None"
    using inst pre by blast
  show ?thesis using d n r1 r2 by blast
qed

subsection \<open>The receipt-scan handler\<close>

text \<open>
  C9: on a result, \<open>handleScanComplete\<close> always overwrites amount and date; description
  and category are overwritten only when the result has them (and they are not the empty
  string, which JavaScript treats as absent) and are unchanged otherwise; no other field
  of the draft changes. A result with amount and date only changes those two fields and
  adds the notification.
\<close>

theorem scan_overwrites:
  fixes numToString :: "'n \<Rightarrow> string" and mkDate :: "'r \<Rightarrow> 'd"
    and r :: "('n, 'r) scannedData" and st :: "'d form"
  shows
    "amount (handleScanComplete numToString mkDate (Some r) st)
        = Some (numToString (scan_amount r))
     \<and> date (handleScanComplete numToString mkDate (Some r) st) = mkDate (scan_date r)
     \<and> description (handleScanComplete numToString mkDate (Some r) st)
        = (case scan_description r of
             None \<Rightarrow> description st
           | Some s \<Rightarrow> if s = [] then description st else s)
     \<and> category (handleScanComplete numToString mkDate (Some r) st)
        = (case scan_category r of
             None \<Rightarrow> category st
           | Some c \<Rightarrow> if c = [] then category st else Some c)
     \<and> type (handleScanComplete numToString mkDate (Some r) st) = type st
     \<and> accountId (handleScanComplete numToString mkDate (Some r) st) = accountId st
     \<and> isRecurring (handleScanComplete numToString mkDate (Some r) st) = isRecurring st
     \<and> recurringInterval (handleScanComplete numToString mkDate (Some r) st)
        = recurringInterval st
     \<and> submits (handleScanComplete numToString mkDate (Some r) st) = submits st
     \<and> (scan_description r = None \<and> scan_category r = None \<longrightarrow>
          handleScanComplete numToString mkDate (Some r) st
            = st\<lparr>amount := Some (numToString (scan_amount r)), date := mkDate (scan_date r),
                 toasts := toasts st @ [''Receipt scanned successfully'']\<rparr>)"
  by (simp add: handleScanComplete_def toast_def Let_def split: option.split)

theorem scan_overwrites_witness:
  "scan_description \<lparr>scan_amount = ''12.5'', scan_date = (20240101::int),
       scan_description = None, scan_category = None\<rparr> = None
   \<and> scan_category \<lparr>scan_amount = ''12.5'', scan_date = (20240101::int),
       scan_description = None, scan_category = None\<rparr> = None
   \<and> handleScanComplete (id :: string \<Rightarrow> string) (id :: int \<Rightarrow> int)
       (Some \<lparr>scan_amount = ''12.5'', scan_date = (20240101::int),
         scan_description = None, scan_category = None\<rparr>)
       (AddTransactionForm (id :: string \<Rightarrow> string) (id :: int \<Rightarrow> int) [] 0 False None)
     = \<lparr>type = EXPENSE, amount = Some ''12.5'', description = '''', accountId = None,
        category = None, date = 20240101, isRecurring = False, recurringInterval = None,
        toasts = [''Receipt scanned successfully''], submits = 0, voiceStatus = ''''\<rparr>"
proof -
  let ?r = "\<lparr>scan_amount = ''12.5'', scan_date = (20240101::int),
       scan_description = None, scan_category = None\<rparr>"
  let ?st = "AddTransactionForm (id :: string \<Rightarrow> string) (id :: int \<Rightarrow> int) [] 0 False None"
  note inst = scan_overwrites [of id id ?r ?st]
  have h1: "scan_description ?r = None" by simp
  have h2: "scan_category ?r = None" by simp
  have "handleScanComplete id id (Some ?r) ?st
     = ?st\<lparr>amount := Some (id (scan_amount ?r)), date := id (scan_date ?r),
           toasts := toasts ?st @ [''Receipt scanned successfully'']\<rparr>"
    using inst h1 h2 by blast
  then show ?thesis
    by (simp add: AddTransactionForm_def defaultAccountId_def)
qed

subsection \<open>A transcript that matches no rule\<close>

lemma categoryRule_no_match:
  "\<forall>c \<in> set cs. \<not> str_includes t (''category '' @ toLowerCase (cat_name c))
   \<Longrightarrow> categoryRule cs t st = st"
  by (induction cs) simp_all

lemma accountRule_no_match:
  "\<forall>a \<in> set as. \<not> str_includes t (''account '' @ toLowerCase (ac_name a))
   \<Longrightarrow> accountRule as t st = st"
  by (induction as) simp_all

text \<open>
  C10: when the transcript matches none of the nine rules, \<open>processVoiceCommand\<close>
  returns the state it was given: no field of the draft changes, nothing is notified and
  the submission pipeline is not started.
\<close>

theorem no_rule_no_change:
  assumes "\<not> str_includes t ''expense''" and "\<not> str_includes t ''spending''"
    and "\<not> str_includes t ''income''" and "\<not> str_includes t ''earning''"
    and "amountMatch t = None"
    and "\<not> str_includes t ''today''" and "\<not> str_includes t ''yesterday''"
    and "descriptionMatch t = None"
    and "\<forall>c \<in> set cs. \<not> str_includes t (''category '' @ toLowerCase (cat_name c))"
    and "\<forall>a \<in> set as. \<not> str_includes t (''account '' @ toLowerCase (ac_name a))"
    and "\<not> str_includes t ''recurring yes''" and "\<not> str_includes t ''set recurring''"
    and "\<not> str_includes t ''recurring no''" and "\<not> str_includes t ''not recurring''"
    and "\<not> str_includes t ''daily''" and "\<not> str_includes t ''weekly''"
    and "\<not> str_includes t ''monthly''" and "\<not> str_includes t ''yearly''"
    and "\<not> str_includes t ''submit''" and "\<not> str_includes t ''save transaction''"
  shows "processVoiceCommand cs as now db t st = st"
proof -
  have "typeRule t st = st" using assms(1-4) by (simp add: typeRule_def)
  moreover have "amountRule t st = st" using assms(5) by (simp add: amountRule_def)
  moreover have "dateRule now db t st = st" using assms(6,7) by (simp add: dateRule_def)
  moreover have "descriptionRule t st = st" using assms(8) by (simp add: descriptionRule_def)
  moreover have "categoryRule cs t st = st" using assms(9) by (rule categoryRule_no_match)
  moreover have "accountRule as t st = st" using assms(10) by (rule accountRule_no_match)
  moreover have "recurringRule t st = st" using assms(11-14) by (simp add: recurringRule_def)
  moreover have "intervalRule t st = st" using assms(15-18) by (simp add: intervalRule_def)
  moreover have "submitRule t st = st" using assms(19,20) by (simp add: submitRule_def)
  ultimately show ?thesis by (simp add: processVoiceCommand_def)
qed

lemma hello_amount: "amountMatch ''hello world'' = None"
  by code_simp

lemma hello_description: "descriptionMatch ''hello world'' = None"
  by code_simp

theorem no_rule_no_change_witness:
  "processVoiceCommand
     [\<lparr>cat_id = ''c1'', cat_name = ''Food'', cat_type = EXPENSE\<rparr>]
     [\<lparr>ac_id = ''a1'', ac_name = ''Cash'', ac_isDefault = True\<rparr>]
     (0::int) ((+) (- 1)) ''hello world''
     (AddTransactionForm (id :: string \<Rightarrow> string) (id :: int \<Rightarrow> int) [] 0 False None)
   = AddTransactionForm (id :: string \<Rightarrow> string) (id :: int \<Rightarrow> int) [] 0 False None"
proof (rule no_rule_no_change)
  show "amountMatch ''hello world'' = None" by (rule hello_amount)
  show "descriptionMatch ''hello world'' = None" by (rule hello_description)
  show "\<forall>c \<in> set [\<lparr>cat_id = ''c1'', cat_name = ''Food'', cat_type = EXPENSE\<rparr>].
      \<not> str_includes ''hello world'' (''category '' @ toLowerCase (cat_name c))"
    by (simp add: toLowerCase_def lowerChar_def)
  show "\<forall>a \<in> set [\<lparr>ac_id = ''a1'', ac_name = ''Cash'', ac_isDefault = True\<rparr>].
      \<not> str_includes ''hello world'' (''account '' @ toLowerCase (ac_name a))"
    by (simp add: toLowerCase_def lowerChar_def)
qed simp_all

subsection \<open>The description rule\<close>

text \<open>The leftmost match is the first success at the first position that has one.\<close>

lemma search_hit: "m s = x # xs \<Longrightarrow> search m s = Some x"
  by (cases s) simp_all

lemma search_skip:
  "\<forall>k < length pre. m (drop k (pre @ s)) = [] \<Longrightarrow> search m (pre @ s) = search m s"
proof (induction pre)
  case Nil
  then show ?case by simp
next
  case (Cons a pre)
  from Cons.prems have "m (drop 0 ((a # pre) @ s)) = []" by blast
  then have here: "m (a # (pre @ s)) = []" by simp
  have "\<forall>k < length pre. m (drop k (pre @ s)) = []"
  proof (intro allI impI)
    fix k assume "k < length pre"
    then have "Suc k < length (a # pre)" by simp
    with Cons.prems have "m (drop (Suc k) ((a # pre) @ s)) = []" by blast
    then show "m (drop k (pre @ s)) = []" by simp
  qed
  with Cons.IH have "search m (pre @ s) = search m s" by blast
  with here show ?case by simp
qed

lemma descriptionAt_no_word: "\<not> prefix ''description '' s \<Longrightarrow> descriptionAt s = []"
  by (simp add: descriptionAt_def lit_def)

lemma descriptionEnd_iff:
  "descriptionEnd r \<noteq> [] \<longleftrightarrow>
     r = [] \<or> (\<exists>c r'. r = c # r' \<and> isSpace c
        \<and> (\<exists>kw \<in> {''amount'', ''type'', ''account'', ''category'', ''date''}. prefix kw r'))"
  by (cases r) (auto simp: descriptionEnd_def endKeywords_def lit_def)

text \<open>\<open>trim\<close> removes the whitespace at the two ends and nothing else.\<close>

lemma trim_parts:
  "\<exists>l r. g = l @ trim g @ r \<and> (\<forall>c \<in> set l. isSpace c) \<and> (\<forall>c \<in> set r. isSpace c)
     \<and> (trim g = [] \<or> (\<not> isSpace (hd (trim g)) \<and> \<not> isSpace (last (trim g))))"
proof -
  let ?l = "takeWhile isSpace g"
  let ?m = "dropWhile isSpace g"
  let ?r = "rev (takeWhile isSpace (rev ?m))"
  have t: "trim g = rev (dropWhile isSpace (rev ?m))" by (simp add: trim_def)
  have m: "?m = trim g @ ?r"
    unfolding t by (metis rev_append rev_rev_ident takeWhile_dropWhile_id)
  have g: "g = ?l @ trim g @ ?r" using m by (metis takeWhile_dropWhile_id)
  have l: "\<forall>c \<in> set ?l. isSpace c" by (auto dest: set_takeWhileD)
  have r: "\<forall>c \<in> set ?r. isSpace c" by (auto dest: set_takeWhileD)
  have ends: "trim g = [] \<or> (\<not> isSpace (hd (trim g)) \<and> \<not> isSpace (last (trim g)))"
  proof (cases "trim g = []")
    case True
    then show ?thesis by simp
  next
    case False
    then have d: "dropWhile isSpace (rev ?m) \<noteq> []" by (simp add: t)
    then have "\<not> isSpace (hd (dropWhile isSpace (rev ?m)))" by (rule hd_dropWhile)
    then have la: "\<not> isSpace (last (trim g))" using d by (simp add: t last_rev)
    from False m have "?m \<noteq> []" by (metis Nil_is_append_conv)
    then have "\<not> isSpace (hd ?m)" by (rule hd_dropWhile)
    moreover have "hd ?m = hd (trim g)" using False m by (metis hd_append2)
    ultimately show ?thesis using la by simp
  qed
  from g l r ends show ?thesis by blast
qed

text \<open>The capture: the shortest text after the word that a stop follows.\<close>

lemma descriptionAt_capture:
  assumes g: "g \<noteq> []" "\<forall>c \<in> set g. \<not> isLineTerminator c"
    and stop: "descriptionEnd rest \<noteq> []"
    and shortest: "\<forall>k. 0 < k \<and> k < length g \<longrightarrow> descriptionEnd (drop k g @ rest) = []"
  shows "\<exists>more. descriptionAt (''description '' @ g @ rest) = g # more"
proof -
  let ?ok = "\<lambda>c. \<not> isLineTerminator c"
  let ?F = "\<lambda>k. map (\<lambda>_. take k (g @ rest)) (descriptionEnd (drop k (g @ rest)))"
  let ?n = "length (takeWhile ?ok (g @ rest))"
  have "takeWhile ?ok (g @ rest) = g @ takeWhile ?ok rest"
    using g(2) by (simp add: takeWhile_append2)
  then have n: "length g \<le> ?n" by simp
  have pos: "1 \<le> length g" using g(1) by (cases g) simp_all
  have at: "descriptionAt (''description '' @ g @ rest) = concat (map ?F [1 ..< Suc ?n])"
    by (simp add: descriptionAt_def lit_def lazy1_def comp_def)
  have split: "[1 ..< Suc ?n] = [1 ..< length g] @ length g # [Suc (length g) ..< Suc ?n]"
  proof -
    have "[1 ..< length g + (Suc ?n - length g)]
        = [1 ..< length g] @ [length g ..< length g + (Suc ?n - length g)]"
      using pos by (rule upt_add_eq_append)
    moreover have "length g + (Suc ?n - length g) = Suc ?n" using n by simp
    ultimately have "[1 ..< Suc ?n] = [1 ..< length g] @ [length g ..< Suc ?n]"
      by (simp only:)
    moreover have "[length g ..< Suc ?n] = length g # [Suc (length g) ..< Suc ?n]"
      using n by (simp add: upt_conv_Cons)
    ultimately show ?thesis by (simp only:)
  qed
  have early: "concat (map ?F [1 ..< length g]) = []"
  proof -
    have "?F k = []" if "k \<in> set [1 ..< length g]" for k
    proof -
      from that have k: "0 < k" "k < length g" by simp_all
      then have "descriptionEnd (drop k g @ rest) = []" using shortest by blast
      with k show ?thesis by simp
    qed
    then show ?thesis by simp
  qed
  obtain u us where u: "descriptionEnd rest = u # us" using stop by (cases "descriptionEnd rest") auto
  have here: "?F (length g) = g # map (\<lambda>_. g) us" by (simp add: u)
  show ?thesis
    by (simp only: at split map_append concat_append early append_Nil list.map concat.simps here)
      simp
qed

lemma lunch_match:
  "descriptionMatch ''description lunch with clients amount 50'' = Some ''lunch with clients''"
  by code_simp

lemma lunch_trim: "trim ''lunch with clients'' = ''lunch with clients''"
  by code_simp

lemma description_examples:
  "map_option trim (descriptionMatch ''description lunch'') = Some ''lunch''"
  "map_option trim (descriptionMatch ''description  coffee  type expense'') = Some ''coffee''"
  "map_option trim (descriptionMatch ''description taxi account cash'') = Some ''taxi''"
  "map_option trim (descriptionMatch ''description rent category housing'') = Some ''rent''"
  "map_option trim (descriptionMatch ''description gift date today'') = Some ''gift''"
  "map_option trim (descriptionMatch ''description buy typewriter ribbon'') = Some ''buy''"
  by code_simp+

lemma processVoiceCommand_description_trim:
  "map_option trim (descriptionMatch t) = Some d
   \<Longrightarrow> description (processVoiceCommand cs as now db t st) = d"
  by (auto simp: processVoiceCommand_description split: option.split)

lemma description_first_occurrence:
  assumes g: "g \<noteq> []" "\<forall>c \<in> set g. \<not> isLineTerminator c"
    and first: "\<forall>k < length pre. \<not> prefix ''description '' (drop k (pre @ ''description '' @ g @ rest))"
    and stop: "rest = [] \<or> (\<exists>c r. rest = c # r \<and> isSpace c
        \<and> (\<exists>kw \<in> {''amount'', ''type'', ''account'', ''category'', ''date''}. prefix kw r))"
    and shortest: "\<forall>k. 0 < k \<and> k < length g \<longrightarrow>
        \<not> (\<exists>c r. drop k g @ rest = c # r \<and> isSpace c
          \<and> (\<exists>kw \<in> {''amount'', ''type'', ''account'', ''category'', ''date''}. prefix kw r))"
  shows "descriptionMatch (pre @ ''description '' @ g @ rest) = Some g"
proof -
  let ?s = "''description '' @ g @ rest"
  have "\<forall>k < length pre. descriptionAt (drop k (pre @ ?s)) = []"
    using first by (blast intro: descriptionAt_no_word)
  then have skip: "search descriptionAt (pre @ ?s) = search descriptionAt ?s"
    by (rule search_skip)
  have stop': "descriptionEnd rest \<noteq> []"
    using stop by (simp only: descriptionEnd_iff)
  have shortest': "\<forall>k. 0 < k \<and> k < length g \<longrightarrow> descriptionEnd (drop k g @ rest) = []"
  proof (intro allI impI)
    fix k assume k: "0 < k \<and> k < length g"
    then have "drop k g @ rest \<noteq> []" by simp
    moreover from k shortest have "\<not> (\<exists>c r. drop k g @ rest = c # r \<and> isSpace c
          \<and> (\<exists>kw \<in> {''amount'', ''type'', ''account'', ''category'', ''date''}. prefix kw r))"
      by blast
    ultimately have "\<not> descriptionEnd (drop k g @ rest) \<noteq> []"
      by (simp only: descriptionEnd_iff) blast
    then show "descriptionEnd (drop k g @ rest) = []" by blast
  qed
  from descriptionAt_capture [OF g stop' shortest'] obtain more
    where "descriptionAt ?s = g # more" by blast
  then have "search descriptionAt ?s = Some g" by (rule search_hit)
  with skip show ?thesis by (simp only: descriptionMatch_def)
qed

text \<open>
  C5: for the transcript \<open>description lunch with clients amount 50\<close> the description
  becomes \<open>lunch with clients\<close>. The rule behind it: at the first occurrence of
  \<open>description \<close>, the capture \<open>g\<close> is the shortest non-empty text (without line
  terminators) after which the transcript ends or a whitespace character and the text of
  one of \<open>amount\<close>, \<open>type\<close>, \<open>account\<close>, \<open>category\<close>, \<open>date\<close> follow, and the
  description becomes \<open>trim g\<close>, which is \<open>g\<close> without the whitespace at its two ends.
  The keyword is matched as text, whether or not a word ends after it
  (\<open>typewriter\<close> stops the capture). One transcript for the end of the input and one
  for each keyword follow.
\<close>

theorem description_capture_rule:
  "description (processVoiceCommand cs as now db
      ''description lunch with clients amount 50'' st) = ''lunch with clients''
   \<and> (g \<noteq> [] \<and> (\<forall>c \<in> set g. \<not> isLineTerminator c)
       \<and> (\<forall>k < length pre.
            \<not> prefix ''description '' (drop k (pre @ ''description '' @ g @ rest)))
       \<and> (rest = [] \<or> (\<exists>c r. rest = c # r \<and> isSpace c
            \<and> (\<exists>kw \<in> {''amount'', ''type'', ''account'', ''category'', ''date''}. prefix kw r)))
       \<and> (\<forall>k. 0 < k \<and> k < length g \<longrightarrow>
            \<not> (\<exists>c r. drop k g @ rest = c # r \<and> isSpace c
              \<and> (\<exists>kw \<in> {''amount'', ''type'', ''account'', ''category'', ''date''}.
                    prefix kw r)))
       \<longrightarrow> description (processVoiceCommand cs as now db
              (pre @ ''description '' @ g @ rest) st) = trim g)
   \<and> (\<exists>l r. g = l @ trim g @ r \<and> (\<forall>c \<in> set l. isSpace c) \<and> (\<forall>c \<in> set r. isSpace c)
        \<and> (trim g = [] \<or> (\<not> isSpace (hd (trim g)) \<and> \<not> isSpace (last (trim g)))))
   \<and> description (processVoiceCommand cs as now db ''description lunch'' st) = ''lunch''
   \<and> description (processVoiceCommand cs as now db
        ''description  coffee  type expense'' st) = ''coffee''
   \<and> description (processVoiceCommand cs as now db
        ''description taxi account cash'' st) = ''taxi''
   \<and> description (processVoiceCommand cs as now db
        ''description rent category housing'' st) = ''rent''
   \<and> description (processVoiceCommand cs as now db
        ''description gift date today'' st) = ''gift''
   \<and> description (processVoiceCommand cs as now db
        ''description buy typewriter ribbon'' st) = ''buy''"
proof (intro conjI impI)
  show "description (processVoiceCommand cs as now db
      ''description lunch with clients amount 50'' st) = ''lunch with clients''"
    by (simp only: processVoiceCommand_description lunch_match lunch_trim option.case)
next
  assume h: "g \<noteq> [] \<and> (\<forall>c \<in> set g. \<not> isLineTerminator c)
       \<and> (\<forall>k < length pre.
            \<not> prefix ''description '' (drop k (pre @ ''description '' @ g @ rest)))
       \<and> (rest = [] \<or> (\<exists>c r. rest = c # r \<and> isSpace c
            \<and> (\<exists>kw \<in> {''amount'', ''type'', ''account'', ''category'', ''date''}. prefix kw r)))
       \<and> (\<forall>k. 0 < k \<and> k < length g \<longrightarrow>
            \<not> (\<exists>c r. drop k g @ rest = c # r \<and> isSpace c
              \<and> (\<exists>kw \<in> {''amount'', ''type'', ''account'', ''category'', ''date''}.
                    prefix kw r)))"
  then have "descriptionMatch (pre @ ''description '' @ g @ rest) = Some g"
    by (intro description_first_occurrence) blast+
  then show "description (processVoiceCommand cs as now db
              (pre @ ''description '' @ g @ rest) st) = trim g"
    by (simp only: processVoiceCommand_description option.case)
next
  show "\<exists>l r. g = l @ trim g @ r \<and> (\<forall>c \<in> set l. isSpace c) \<and> (\<forall>c \<in> set r. isSpace c)
        \<and> (trim g = [] \<or> (\<not> isSpace (hd (trim g)) \<and> \<not> isSpace (last (trim g))))"
    by (rule trim_parts)
qed (rule processVoiceCommand_description_trim, rule description_examples)+

theorem description_capture_rule_witness:
  "description (processVoiceCommand [] [] (0::int) ((+) (- 1))
      ''add description  tea  amount 5''
      (AddTransactionForm (id :: string \<Rightarrow> string) (id :: int \<Rightarrow> int) [] 0 False None))
     = ''tea''"
proof -
  let ?st = "AddTransactionForm (id :: string \<Rightarrow> string) (id :: int \<Rightarrow> int) [] 0 False None"
  note inst = description_capture_rule
    [of "[]" "[]" 0 "(+) (- 1)" ?st "'' tea ''" "''add ''" "'' amount 5''",
      THEN conjunct2, THEN conjunct1]
  have g: "'' tea '' \<noteq> [] \<and> (\<forall>c \<in> set '' tea ''. \<not> isLineTerminator c)"
    by (simp add: isLineTerminator_def)
  have first: "\<forall>k < length ''add ''.
      \<not> prefix ''description '' (drop k (''add '' @ ''description '' @ '' tea '' @ '' amount 5''))"
    by (simp add: less_Suc_eq)
  have stop: "'' amount 5'' = [] \<or> (\<exists>c r. '' amount 5'' = c # r \<and> isSpace c
      \<and> (\<exists>kw \<in> {''amount'', ''type'', ''account'', ''category'', ''date''}. prefix kw r))"
    by (simp add: isSpace_def)
  have shortest: "\<forall>k. 0 < k \<and> k < length '' tea '' \<longrightarrow>
      \<not> (\<exists>c r. drop k '' tea '' @ '' amount 5'' = c # r \<and> isSpace c
        \<and> (\<exists>kw \<in> {''amount'', ''type'', ''account'', ''category'', ''date''}. prefix kw r))"
    by (auto simp: less_Suc_eq)
  have "description (processVoiceCommand [] [] (0::int) ((+) (- 1))
      (''add '' @ ''description '' @ '' tea '' @ '' amount 5'') ?st) = trim '' tea ''"
    using inst g first stop shortest by blast
  moreover have "trim '' tea '' = ''tea''" by code_simp
  ultimately show ?thesis by simp
qed

subsection \<open>The category and account rules\<close>

text \<open>
  C6: the category rule sets the category to the id of the first category, in the order
  given, whose lower-cased name after \<open>category \<close> occurs in the (lower-cased)
  transcript, and leaves the category unchanged when no category matches; the account
  rule does the same with \<open>account \<close> and the accounts, independently.
\<close>

theorem category_account_first_match:
  "category (processVoiceCommand cs as now db t st) =
     (case find (\<lambda>c. str_includes t (''category '' @ toLowerCase (cat_name c))) cs of
        None \<Rightarrow> category st | Some c \<Rightarrow> Some (cat_id c))
   \<and> accountId (processVoiceCommand cs as now db t st) =
     (case find (\<lambda>a. str_includes t (''account '' @ toLowerCase (ac_name a))) as of
        None \<Rightarrow> accountId st | Some a \<Rightarrow> Some (ac_id a))
   \<and> category (onresult cs as now db heard st) =
     (case find (\<lambda>c. str_includes (toLowerCase heard)
                       (''category '' @ toLowerCase (cat_name c))) cs of
        None \<Rightarrow> category st | Some c \<Rightarrow> Some (cat_id c))
   \<and> accountId (onresult cs as now db heard st) =
     (case find (\<lambda>a. str_includes (toLowerCase heard)
                       (''account '' @ toLowerCase (ac_name a))) as of
        None \<Rightarrow> accountId st | Some a \<Rightarrow> Some (ac_id a))
   \<and> ((\<forall>b \<in> set pre. \<not> str_includes t (''category '' @ toLowerCase (cat_name b)))
        \<and> str_includes t (''category '' @ toLowerCase (cat_name c)) \<longrightarrow>
        category (processVoiceCommand (pre @ c # post) as now db t st) = Some (cat_id c))
   \<and> ((\<forall>b \<in> set cs. \<not> str_includes t (''category '' @ toLowerCase (cat_name b))) \<longrightarrow>
        category (processVoiceCommand cs as now db t st) = category st)
   \<and> ((\<forall>b \<in> set pre'. \<not> str_includes t (''account '' @ toLowerCase (ac_name b)))
        \<and> str_includes t (''account '' @ toLowerCase (ac_name a)) \<longrightarrow>
        accountId (processVoiceCommand cs (pre' @ a # post') now db t st) = Some (ac_id a))
   \<and> ((\<forall>b \<in> set as. \<not> str_includes t (''account '' @ toLowerCase (ac_name b))) \<longrightarrow>
        accountId (processVoiceCommand cs as now db t st) = accountId st)"
  by (simp add: processVoiceCommand_category processVoiceCommand_accountId onresult_def
      Let_def find_append_first find_none_all split: option.split)

theorem category_account_first_match_witness:
  "\<not> str_includes ''category food and drink account savings''
       (''category '' @ toLowerCase (cat_name
          \<lparr>cat_id = ''c1'', cat_name = ''Travel'', cat_type = EXPENSE\<rparr>))
   \<and> str_includes ''category food and drink account savings''
       (''category '' @ toLowerCase (cat_name
          \<lparr>cat_id = ''c2'', cat_name = ''Food'', cat_type = EXPENSE\<rparr>))
   \<and> category (processVoiceCommand
         ([\<lparr>cat_id = ''c1'', cat_name = ''Travel'', cat_type = EXPENSE\<rparr>]
           @ \<lparr>cat_id = ''c2'', cat_name = ''Food'', cat_type = EXPENSE\<rparr>
           # [\<lparr>cat_id = ''c3'', cat_name = ''Food and Drink'', cat_type = EXPENSE\<rparr>])
         [\<lparr>ac_id = ''a1'', ac_name = ''Cash'', ac_isDefault = False\<rparr>,
          \<lparr>ac_id = ''a2'', ac_name = ''Savings'', ac_isDefault = True\<rparr>]
         (0::int) ((+) (- 1)) ''category food and drink account savings''
         (AddTransactionForm (id :: string \<Rightarrow> string) (id :: int \<Rightarrow> int) [] 0 False None))
       = Some ''c2''
   \<and> category (processVoiceCommand
         [\<lparr>cat_id = ''c1'', cat_name = ''Travel'', cat_type = EXPENSE\<rparr>]
         [\<lparr>ac_id = ''a1'', ac_name = ''Cash'', ac_isDefault = False\<rparr>,
          \<lparr>ac_id = ''a2'', ac_name = ''Savings'', ac_isDefault = True\<rparr>]
         (0::int) ((+) (- 1)) ''category food and drink account savings''
         (AddTransactionForm (id :: string \<Rightarrow> string) (id :: int \<Rightarrow> int) [] 0 False None))
       = None
   \<and> \<not> str_includes ''category food and drink account savings''
       (''account '' @ toLowerCase (ac_name
          \<lparr>ac_id = ''a1'', ac_name = ''Cash'', ac_isDefault = False\<rparr>))
   \<and> str_includes ''category food and drink account savings''
       (''account '' @ toLowerCase (ac_name
          \<lparr>ac_id = ''a2'', ac_name = ''Savings'', ac_isDefault = True\<rparr>))
   \<and> accountId (processVoiceCommand
         [\<lparr>cat_id = ''c1'', cat_name = ''Travel'', cat_type = EXPENSE\<rparr>]
         ([\<lparr>ac_id = ''a1'', ac_name = ''Cash'', ac_isDefault = False\<rparr>]
           @ \<lparr>ac_id = ''a2'', ac_name = ''Savings'', ac_isDefault = True\<rparr> # [])
         (0::int) ((+) (- 1)) ''category food and drink account savings''
         (AddTransactionForm (id :: string \<Rightarrow> string) (id :: int \<Rightarrow> int) [] 0 False None))
       = Some ''a2''
   \<and> accountId (processVoiceCommand
         [\<lparr>cat_id = ''c1'', cat_name = ''Travel'', cat_type = EXPENSE\<rparr>]
         [\<lparr>ac_id = ''a1'', ac_name = ''Cash'', ac_isDefault = False\<rparr>]
         (0::int) ((+) (- 1)) ''category food and drink account savings''
         (AddTransactionForm (id :: string \<Rightarrow> string) (id :: int \<Rightarrow> int) [] 0 False None))
       = None"
proof -
  let ?t = "''category food and drink account savings''"
  let ?st = "AddTransactionForm (id :: string \<Rightarrow> string) (id :: int \<Rightarrow> int) [] 0 False None"
  let ?TR = "\<lparr>cat_id = ''c1'', cat_name = ''Travel'', cat_type = EXPENSE\<rparr>"
  let ?FO = "\<lparr>cat_id = ''c2'', cat_name = ''Food'', cat_type = EXPENSE\<rparr>"
  let ?FD = "\<lparr>cat_id = ''c3'', cat_name = ''Food and Drink'', cat_type = EXPENSE\<rparr>"
  let ?CA = "\<lparr>ac_id = ''a1'', ac_name = ''Cash'', ac_isDefault = False\<rparr>"
  let ?SA = "\<lparr>ac_id = ''a2'', ac_name = ''Savings'', ac_isDefault = True\<rparr>"
  note inst1 = category_account_first_match
    [of "[?TR]" "[?CA, ?SA]" 0 "(+) (- 1)" ?t ?st "[]" "[?TR]" ?FO "[?FD]" "[]" ?SA "[]"]
  note inst2 = category_account_first_match
    [of "[?TR]" "[?CA]" 0 "(+) (- 1)" ?t ?st "[]" "[]" ?FO "[]" "[?CA]" ?SA "[]"]
  have c0: "\<not> str_includes ?t (''category '' @ toLowerCase (cat_name ?TR))"
    by (simp add: toLowerCase_def lowerChar_def)
  have c1: "str_includes ?t (''category '' @ toLowerCase (cat_name ?FO))"
    by (simp add: toLowerCase_def lowerChar_def)
  have a0: "\<not> str_includes ?t (''account '' @ toLowerCase (ac_name ?CA))"
    by (simp add: toLowerCase_def lowerChar_def)
  have a1: "str_includes ?t (''account '' @ toLowerCase (ac_name ?SA))"
    by (simp add: toLowerCase_def lowerChar_def)
  have cpre: "\<forall>b \<in> set [?TR]. \<not> str_includes ?t (''category '' @ toLowerCase (cat_name b))"
    using c0 by simp
  have apre: "\<forall>b \<in> set [?CA]. \<not> str_includes ?t (''account '' @ toLowerCase (ac_name b))"
    using a0 by simp
  have st_none: "category ?st = None" "accountId ?st = None"
    by (simp_all add: AddTransactionForm_def defaultAccountId_def)
  have r1: "category (processVoiceCommand ([?TR] @ ?FO # [?FD]) [?CA, ?SA] (0::int) ((+) (- 1))
      ?t ?st) = Some ''c2''"
    using inst1 cpre c1 by simp
  have r2: "category (processVoiceCommand [?TR] [?CA, ?SA] (0::int) ((+) (- 1)) ?t ?st) = None"
    using inst1 cpre st_none(1) by simp
  have r3: "accountId (processVoiceCommand [?TR] ([?CA] @ ?SA # []) (0::int) ((+) (- 1))
      ?t ?st) = Some ''a2''"
    using inst2 apre a1 by simp
  have r4: "accountId (processVoiceCommand [?TR] [?CA] (0::int) ((+) (- 1)) ?t ?st) = None"
    using inst2 apre st_none(2) by simp
  show ?thesis
    by (intro conjI c0 c1 r1 r2 a0 a1 r3 r4)
qed

subsection \<open>The amount rule\<close>

text \<open>The number pattern on a text that starts with \<open>50\<close>, or with no digit.\<close>

lemma greedy1_no_start: "takeWhile ok s = [] \<Longrightarrow> greedy1 ok s = []"
  by (simp add: greedy1_def)

lemma number_no_digit: "\<not> isDigit c \<Longrightarrow> number (c # s) = []"
  by (simp add: number_def greedy1_def)

lemma no_digit_start:
  assumes "\<not> (\<exists>d r. post = d # r \<and> isDigit d)"
  shows "takeWhile isDigit post = []"
  using assms by (cases post) simp_all

lemma fraction_none:
  assumes "\<not> (\<exists>d r. post = CHR ''.'' # d # r \<and> isDigit d)"
  shows "fraction ds post = [(ds, post)]"
proof (cases post)
  case Nil
  then show ?thesis by (simp add: fraction_def)
next
  case (Cons c r)
  show ?thesis
  proof (cases "c = CHR ''.''")
    case True
    with Cons assms have "\<not> (\<exists>d r'. r = d # r' \<and> isDigit d)" by simp
    then have "greedy1 isDigit r = []" by (simp add: greedy1_no_start no_digit_start)
    with Cons True show ?thesis by (simp add: fraction_def)
  next
    case False
    with Cons show ?thesis by (simp add: fraction_def)
  qed
qed

lemma number_fifty:
  assumes "\<not> (\<exists>d r. post = d # r \<and> isDigit d)"
    and "\<not> (\<exists>d r. post = CHR ''.'' # d # r \<and> isDigit d)"
  shows "\<exists>rest. number (''50'' @ post) = (''50'', post) # rest"
proof -
  have "takeWhile isDigit (''50'' @ post) = ''50''"
    using no_digit_start [OF assms(1)] by (simp add: isDigit_def)
  then have "greedy1 isDigit (''50'' @ post) = [(''50'', post), (''5'', ''0'' @ post)]"
    by (simp add: greedy1_def)
  then show ?thesis
    by (simp add: number_def fraction_none [OF assms(2)])
qed

lemma amountAt_amount_fifty:
  assumes "\<not> (\<exists>d r. post = d # r \<and> isDigit d)"
    and "\<not> (\<exists>d r. post = CHR ''.'' # d # r \<and> isDigit d)"
  shows "\<exists>rest. amountAt (''amount 50'' @ post) = (Some ''50'', None) # rest"
proof -
  from number_fifty [OF assms] obtain rest
    where n: "number (''50'' @ post) = (''50'', post) # rest" by blast
  have "lit ''amount '' (''amount 50'' @ post) = [''50'' @ post]"
    by (simp add: lit_def)
  with n show ?thesis by (simp add: amountAt_def)
qed

lemma amountAt_fifty_dollars:
  "\<exists>rest. amountAt (''50 dollars'' @ post) = (None, Some ''50'') # rest"
proof -
  have "\<exists>rest. number (''50'' @ ('' dollars'' @ post)) = (''50'', '' dollars'' @ post) # rest"
    by (rule number_fifty) (simp_all add: isDigit_def)
  then obtain rest
    where n: "number (''50 dollars'' @ post) = (''50'', '' dollars'' @ post) # rest" by auto
  have "lit ''amount '' (''50 dollars'' @ post) = []"
    by (simp add: lit_def)
  with n show ?thesis by (simp add: amountAt_def lit_def)
qed

text \<open>Before the first digit the pattern can only start with the word \<open>amount\<close>.\<close>

lemma amountAt_no_word:
  assumes "\<not> isDigit c" and "\<not> prefix ''amount '' (c # s)"
  shows "amountAt (c # s) = []"
proof -
  have "lit ''amount '' (c # s) = []" unfolding lit_def using assms(2) by (rule if_not_P)
  moreover have "number (c # s) = []" using assms(1) by (rule number_no_digit)
  ultimately show ?thesis by (simp only: amountAt_def list.map concat.simps append_Nil)
qed

lemma amountAt_word:
  assumes "\<not> isDigit c" and "c # s = ''amount '' @ q"
  shows "amountAt (c # s) = map (\<lambda>(g1, _). (Some g1, None)) (number q)"
proof -
  have "lit ''amount '' (''amount '' @ q) = [q]" by (simp add: lit_def)
  then have "lit ''amount '' (c # s) = [q]" by (simp only: assms(2))
  moreover have "number (c # s) = []" using assms(1) by (rule number_no_digit)
  ultimately show ?thesis by (simp add: amountAt_def)
qed

lemma amount_word_inside:
  assumes "prefix ''amount '' ((a # pre) @ x # X)" and "x \<notin> set ''mount ''"
  shows "prefix ''amount '' (a # pre)"
proof -
  from assms(1) consider "prefix ''amount '' (a # pre)"
    | us where "''amount '' = (a # pre) @ us" "prefix us (x # X)"
    by (auto simp: prefix_append)
  then show ?thesis
  proof cases
    case 1
    then show ?thesis .
  next
    case 2
    from 2(1) have tl: "''mount '' = pre @ us" by simp
    have "us = []"
    proof (cases us)
      case Nil
      then show ?thesis .
    next
      case (Cons u us')
      with 2(2) have "u = x" by simp
      moreover have "u \<in> set (pre @ us)" using Cons by simp
      ultimately have "x \<in> set ''mount ''" by (simp only: tl)
      with assms(2) show ?thesis by blast
    qed
    with 2(1) show ?thesis by simp
  qed
qed

lemma amountAt_before:
  assumes nd: "\<forall>c \<in> set (a # pre). \<not> isDigit c"
    and x: "x \<notin> set ''mount ''"
    and ne: "amountAt ((a # pre) @ x # X) \<noteq> []"
  shows "a # pre = ''amount '' \<and> isDigit x"
proof -
  have a: "\<not> isDigit a" using nd by simp
  have "prefix ''amount '' (a # (pre @ x # X))"
  proof (rule ccontr)
    assume "\<not> prefix ''amount '' (a # (pre @ x # X))"
    with a have "amountAt (a # (pre @ x # X)) = []" by (rule amountAt_no_word)
    with ne show False by simp
  qed
  then have "prefix ''amount '' ((a # pre) @ x # X)" by simp
  then have "prefix ''amount '' (a # pre)" using x by (rule amount_word_inside)
  then obtain q where q: "a # pre = ''amount '' @ q" by (auto simp: prefix_def)
  then have "a # (pre @ x # X) = ''amount '' @ (q @ x # X)" by simp
  with a have "amountAt (a # (pre @ x # X)) = map (\<lambda>(g1, _). (Some g1, None)) (number (q @ x # X))"
    by (rule amountAt_word)
  with ne have n: "number (q @ x # X) \<noteq> []" by auto
  have "q = []"
  proof (cases q)
    case Nil
    then show ?thesis .
  next
    case (Cons d q')
    then have "d \<in> set (''amount '' @ q)" by simp
    then have "d \<in> set (a # pre)" by (simp only: q)
    with nd have "\<not> isDigit d" by blast
    with Cons n show ?thesis by (simp add: number_no_digit)
  qed
  with n have "isDigit x" using number_no_digit [of x X] by auto
  with \<open>q = []\<close> q show ?thesis by simp
qed

text \<open>The leftmost match, when the text before the first digit holds none.\<close>

lemma search_amount_after:
  assumes nd: "\<forall>c \<in> set pre. \<not> isDigit c"
    and x: "x \<notin> set ''mount ''"
    and here: "amountAt (x # X) = r # rest"
    and word: "isDigit x \<Longrightarrow> \<exists>rest'. amountAt (''amount '' @ x # X) = r' # rest'"
  shows "search amountAt (pre @ x # X) = Some r \<or> search amountAt (pre @ x # X) = Some r'"
  using nd
proof (induction pre)
  case Nil
  have "search amountAt (x # X) = Some r" using here by simp
  then show ?case by simp
next
  case (Cons a pre)
  show ?case
  proof (cases "amountAt ((a # pre) @ x # X) = []")
    case True
    then have "search amountAt ((a # pre) @ x # X) = search amountAt (pre @ x # X)" by simp
    with Cons show ?thesis by simp
  next
    case False
    with Cons.prems x have ap: "a # pre = ''amount ''" and dx: "isDigit x"
      using amountAt_before [of a pre x X] by blast+
    from word [OF dx] obtain rest' where "amountAt (''amount '' @ x # X) = r' # rest'" by blast
    then have "amountAt ((a # pre) @ x # X) = r' # rest'" by (simp only: ap)
    then have "search amountAt ((a # pre) @ x # X) = Some r'" by simp
    then show ?thesis by simp
  qed
qed

text \<open>Two transcripts in which the digits \<open>50\<close> are part of a longer number.\<close>

lemma amount_500: "amountMatch ''amount 500'' = Some (Some ''500'', None)"
  by code_simp

lemma amount_150_dollars: "amountMatch ''150 dollars'' = Some (None, Some ''150'')"
  by code_simp

text \<open>
  C3 (as stated): every transcript that contains \<open>amount 50\<close> or \<open>50 dollars\<close> would
  get the amount \<open>50\<close>. The transcript \<open>amount 500\<close> contains \<open>amount 50\<close> and
  \<open>150 dollars\<close> contains \<open>50 dollars\<close>; neither gets the amount \<open>50\<close> (they get
  \<open>500\<close> and \<open>150\<close>).
\<close>

theorem amount_fifty_inside_longer_number:
  "str_includes ''amount 500'' ''amount 50''
   \<and> amount (processVoiceCommand [] [] (0::int) ((+) (- 1)) ''amount 500''
        (AddTransactionForm (id :: string \<Rightarrow> string) (id :: int \<Rightarrow> int) [] 0 False None))
       \<noteq> Some ''50''
   \<and> str_includes ''150 dollars'' ''50 dollars''
   \<and> amount (processVoiceCommand [] [] (0::int) ((+) (- 1)) ''150 dollars''
        (AddTransactionForm (id :: string \<Rightarrow> string) (id :: int \<Rightarrow> int) [] 0 False None))
       \<noteq> Some ''50''"
  by (simp add: processVoiceCommand_amount amount_500 amount_150_dollars jsOr_def)

text \<open>
  C3 (amended): for every transcript in which \<open>amount 50\<close> or \<open>50 dollars\<close> occurs with
  no digit anywhere before it, and in which \<open>amount 50\<close> is not followed by a further
  digit or by a dot and a digit, \<open>processVoiceCommand\<close> sets the amount to \<open>50\<close>. The
  hypothesis \<open>t = pre @ p @ post\<close> is what \<open>str_includes t p\<close> means
  (\<open>str_includes_iff\<close>), with the occurrence named.
\<close>

theorem amount_fifty:
  assumes "\<forall>c \<in> set pre. \<not> isDigit c"
    and "(t = pre @ ''amount 50'' @ post
          \<and> \<not> (\<exists>d r. post = d # r \<and> isDigit d)
          \<and> \<not> (\<exists>d r. post = CHR ''.'' # d # r \<and> isDigit d))
         \<or> t = pre @ ''50 dollars'' @ post"
  shows "amount (processVoiceCommand cs as now db t st) = Some ''50''"
proof -
  have "amountMatch t = Some (Some ''50'', None) \<or> amountMatch t = Some (None, Some ''50'')"
    using assms(2)
  proof
    assume c: "t = pre @ ''amount 50'' @ post
          \<and> \<not> (\<exists>d r. post = d # r \<and> isDigit d)
          \<and> \<not> (\<exists>d r. post = CHR ''.'' # d # r \<and> isDigit d)"
    then obtain rest where "amountAt (''amount 50'' @ post) = (Some ''50'', None) # rest"
      using amountAt_amount_fifty [of post] by blast
    then have here: "amountAt (CHR ''a'' # (''mount 50'' @ post)) = (Some ''50'', None) # rest"
      by simp
    have "search amountAt (pre @ CHR ''a'' # (''mount 50'' @ post)) = Some (Some ''50'', None)
        \<or> search amountAt (pre @ CHR ''a'' # (''mount 50'' @ post)) = Some (Some ''50'', None)"
      using assms(1) _ here
      by (rule search_amount_after) (simp_all add: isDigit_def)
    moreover have "t = pre @ CHR ''a'' # (''mount 50'' @ post)" using c by simp
    ultimately show ?thesis by (simp only: amountMatch_def) simp
  next
    assume c: "t = pre @ ''50 dollars'' @ post"
    obtain rest where "amountAt (''50 dollars'' @ post) = (None, Some ''50'') # rest"
      using amountAt_fifty_dollars [of post] by blast
    then have here: "amountAt (CHR ''5'' # (''0 dollars'' @ post)) = (None, Some ''50'') # rest"
      by simp
    have "\<exists>rest'. amountAt (''amount 50'' @ ('' dollars'' @ post)) = (Some ''50'', None) # rest'"
      by (rule amountAt_amount_fifty) (simp_all add: isDigit_def)
    then have word: "\<exists>rest'. amountAt (''amount '' @ CHR ''5'' # (''0 dollars'' @ post))
        = (Some ''50'', None) # rest'"
      by simp
    have "search amountAt (pre @ CHR ''5'' # (''0 dollars'' @ post)) = Some (None, Some ''50'')
        \<or> search amountAt (pre @ CHR ''5'' # (''0 dollars'' @ post)) = Some (Some ''50'', None)"
      using assms(1) _ here word
      by (rule search_amount_after) simp_all
    moreover have "t = pre @ CHR ''5'' # (''0 dollars'' @ post)" using c by simp
    ultimately show ?thesis by (simp only: amountMatch_def) blast
  qed
  then show ?thesis
    by (auto simp: processVoiceCommand_amount jsOr_def)
qed

theorem amount_fifty_witness:
  "str_includes ''set amount 50 please'' ''amount 50''
   \<and> amount (processVoiceCommand [] [] (0::int) ((+) (- 1)) ''set amount 50 please''
        (AddTransactionForm (id :: string \<Rightarrow> string) (id :: int \<Rightarrow> int) [] 0 False None)) = Some ''50''
   \<and> str_includes ''paid 50 dollars today'' ''50 dollars''
   \<and> amount (processVoiceCommand [] [] (0::int) ((+) (- 1)) ''paid 50 dollars today''
        (AddTransactionForm (id :: string \<Rightarrow> string) (id :: int \<Rightarrow> int) [] 0 False None)) = Some ''50''"
proof -
  have r1: "amount (processVoiceCommand [] [] (0::int) ((+) (- 1)) ''set amount 50 please''
      (AddTransactionForm (id :: string \<Rightarrow> string) (id :: int \<Rightarrow> int) [] 0 False None)) = Some ''50''"
  proof (rule amount_fifty [where pre = "''set ''" and post = "'' please''"])
    show "\<forall>c \<in> set ''set ''. \<not> isDigit c" by (simp add: isDigit_def)
    show "(''set amount 50 please'' = ''set '' @ ''amount 50'' @ '' please''
          \<and> \<not> (\<exists>d r. '' please'' = d # r \<and> isDigit d)
          \<and> \<not> (\<exists>d r. '' please'' = CHR ''.'' # d # r \<and> isDigit d))
         \<or> ''set amount 50 please'' = ''set '' @ ''50 dollars'' @ '' please''"
      by (simp add: isDigit_def)
  qed
  have r2: "amount (processVoiceCommand [] [] (0::int) ((+) (- 1)) ''paid 50 dollars today''
      (AddTransactionForm (id :: string \<Rightarrow> string) (id :: int \<Rightarrow> int) [] 0 False None)) = Some ''50''"
  proof (rule amount_fifty [where pre = "''paid ''" and post = "'' today''"])
    show "\<forall>c \<in> set ''paid ''. \<not> isDigit c" by (simp add: isDigit_def)
    show "(''paid 50 dollars today'' = ''paid '' @ ''amount 50'' @ '' today''
          \<and> \<not> (\<exists>d r. '' today'' = d # r \<and> isDigit d)
          \<and> \<not> (\<exists>d r. '' today'' = CHR ''.'' # d # r \<and> isDigit d))
         \<or> ''paid 50 dollars today'' = ''paid '' @ ''50 dollars'' @ '' today''"
      by simp
  qed
  have i1: "str_includes ''set amount 50 please'' ''amount 50''" by simp
  have i2: "str_includes ''paid 50 dollars today'' ''50 dollars''" by simp
  show ?thesis by (intro conjI i1 i2 r1 r2)
qed

end
